theory Spec2Isabelle
  imports Main
begin

section \<open>Data model\<close>

text \<open>
  services/userDb.js documents the user record as
  \<^verbatim>\<open>{ jid: string, isPro: boolean, email: string, upgradedAt: Date | null }\<close>.
  The field \<open>email\<close> is \<open>null\<close> until an address is stored, so it is an option here.
  A \<open>Date\<close> is represented by its time value (milliseconds since the epoch), the
  number \<open>new Date()\<close> reads from the clock.

  A JavaScript string is modelled by \<^typ>\<open>string\<close>, each \<^typ>\<open>char\<close> standing for
  the UTF-16 code unit of the same number (the code points U+0000 to U+00FF).
\<close>

record user =
  jid :: string
  isPro :: bool
  email :: "string option"
  upgradedAt :: "int option"

text \<open>
  \<open>const users = new Map()\<close>: a JavaScript \<open>Map\<close> keeps its entries in insertion
  order, one entry per key. It is an association list; \<open>mapGet\<close>, \<open>mapHas\<close> and
  \<open>mapSet\<close> are \<open>Map.prototype.get\<close>, \<open>has\<close> and \<open>set\<close> (which overwrites the
  value of a present key in place and appends an absent one).
\<close>

type_synonym userMap = "(string \<times> user) list"

definition mapGet :: "userMap \<Rightarrow> string \<Rightarrow> user option" where
  "mapGet m k = map_of m k"

definition mapHas :: "userMap \<Rightarrow> string \<Rightarrow> bool" where
  "mapHas m k = (mapGet m k \<noteq> None)"

fun mapSet :: "string \<Rightarrow> user \<Rightarrow> userMap \<Rightarrow> userMap" where
  "mapSet k v [] = [(k, v)]"
| "mapSet k v ((k', v') # m) = (if k' = k then (k, v) # m else (k', v') # mapSet k v m)"

text \<open>
  Every text the bot sends is one template literal of the source. A message is
  represented by its template and the values interpolated into it:
  \<^item> \<open>Menu\<close>: the command list of \<open>handleStart\<close>;
  \<^item> \<open>TierStatus p d\<close>: \<open>Your current tier: ${tier}${since}\<close> of \<open>handleStatus\<close>, where
    \<open>tier\<close> is the Pro label when \<open>p\<close> and the Free label otherwise, and \<open>since\<close> is
    the "Pro since" line for the date \<open>d\<close>, or empty when there is none;
  \<^item> \<open>PaymentRequired l\<close>: the \<open>paymentMessage\<close> of \<open>requirePro\<close> with the payment link
    \<open>l\<close> (\<open>config.payment.link\<close>);
  \<^item> \<open>ProZone\<close>: the Pro-zone welcome of \<open>handlePremium\<close>;
  \<^item> \<open>UsageError\<close>, \<open>AlreadyPro\<close>, \<open>UpgradeConfirm e\<close>: the three replies of
    \<open>handleActivate\<close>, the last one naming the address \<open>e\<close>;
  \<^item> \<open>AccessDenied\<close>, \<open>AdminPanel total pro free\<close>: the two replies of \<open>handleAdmin\<close>,
    the panel showing the three numbers in that order.
\<close>

datatype message =
    Menu
  | TierStatus bool "int option"
  | PaymentRequired string
  | ProZone
  | UsageError
  | AlreadyPro
  | UpgradeConfirm string
  | AccessDenied
  | AdminPanel int int int

text \<open>Lines written to the console, by the call that writes them.\<close>

datatype logLine =
    LogCommand string string "string list"
  | LogEmailSent string
  | LogEmailFailed string
  | LogActivateEmailError

text \<open>
  A rejected promise or a thrown exception: \<open>sock.sendMessage\<close> rejecting,
  \<open>transporter.sendMail\<close> rejecting, and a method call on \<open>undefined\<close>.
\<close>

datatype error = TransportError | SmtpError | TypeError

text \<open>
  The state the modules share: the \<open>users\<close> map of userDb.js, and the effects on the
  outside, in the order they happen: every call of \<open>sock.sendMessage\<close> (recipient and
  text), every call of \<open>transporter.sendMail\<close> (recipient address and the jid the
  mail is about), and the console.
\<close>

record world =
  users :: userMap
  outbox :: "(string \<times> message) list"
  mails :: "(string \<times> string) list"
  console :: "logLine list"

text \<open>
  What the modules read from outside. config/index.js is not part of the sources, so
  the values read from it are parameters: \<open>config.payment.link\<close> and (for the seeding
  loop) \<open>config.initialProUsers\<close>. \<open>envAdminJid\<close> is \<open>process.env.ADMIN_JID\<close>, and
  \<open>sendMail to who\<close> tells whether \<open>transporter.sendMail\<close> resolves for the welcome
  mail to \<open>to\<close> about \<open>who\<close>.

  The Baileys socket is a parameter of every handler, as in the source; a
  \<open>sock\<close> tells for each recipient and text whether \<open>sock.sendMessage\<close> resolves.
\<close>

record env =
  paymentLink :: string
  envAdminJid :: "string option"
  sendMail :: "string \<Rightarrow> string \<Rightarrow> bool"

type_synonym sock = "string \<Rightarrow> message \<Rightarrow> bool"

section \<open>services/userDb.js\<close>

text \<open>
  The functions of userDb.js read and write the module's \<open>users\<close> map; here they take
  it and return it. A record object fetched from the map and then assigned to is
  stored again under the same key before the function returns (\<open>users.set(jid, user)\<close>),
  so the map after the call holds the record with all assignments made.

  In \<open>getUser\<close> the final \<open>users.get(jid)\<close> always finds a record, the one just
  inserted if there was none; the \<open>None\<close> branch below is never taken.
\<close>

definition getUser :: "string \<Rightarrow> userMap \<Rightarrow> user \<times> userMap" where
  "getUser who m =
     (let m1 = (if \<not> mapHas m who
                then mapSet who \<lparr>jid = who, isPro = False, email = None, upgradedAt = None\<rparr> m
                else m)
      in (case mapGet m1 who of
            Some u \<Rightarrow> (u, m1)
          | None \<Rightarrow> (\<lparr>jid = who, isPro = False, email = None, upgradedAt = None\<rparr>, m1)))"

definition isProUser :: "string \<Rightarrow> userMap \<Rightarrow> bool \<times> userMap" where
  "isProUser who m = (let (u, m1) = getUser who m in (isPro u = True, m1))"

text \<open>
  \<open>if (email)\<close> holds for a string that is not empty (\<open>null\<close> and \<open>""\<close> are falsy).
  \<open>now\<close> is the value of \<open>new Date()\<close> at the call.
\<close>

definition truthy :: "string option \<Rightarrow> bool" where
  "truthy s = (case s of None \<Rightarrow> False | Some t \<Rightarrow> t \<noteq> [])"

definition upgradeUserToPro :: "string \<Rightarrow> string option \<Rightarrow> int \<Rightarrow> userMap \<Rightarrow> user \<times> userMap" where
  "upgradeUserToPro who addr now m =
     (let (u, m1) = getUser who m;
          u1 = u\<lparr>isPro := True\<rparr>;
          u2 = u1\<lparr>upgradedAt := Some now\<rparr>;
          u3 = (if truthy addr then u2\<lparr>email := addr\<rparr> else u2)
      in (u3, mapSet who u3 m1))"

definition revokeProAccess :: "string \<Rightarrow> userMap \<Rightarrow> user \<times> userMap" where
  "revokeProAccess who m =
     (let (u, m1) = getUser who m;
          u1 = u\<lparr>isPro := False\<rparr>
      in (u1, mapSet who u1 m1))"

definition listAllUsers :: "userMap \<Rightarrow> user list" where
  "listAllUsers m = map snd m"

text \<open>
  The seeding loop at module load: one \<open>users.set\<close> for each jid of
  \<open>config.initialProUsers\<close>, each with its own \<open>new Date()\<close>; the list pairs every jid
  with the clock reading of its iteration.
\<close>

fun seedUsers :: "(string \<times> int) list \<Rightarrow> userMap \<Rightarrow> userMap" where
  "seedUsers [] m = m"
| "seedUsers ((who, now) # rest) m =
     seedUsers rest (mapSet who \<lparr>jid = who, isPro = True, email = None, upgradedAt = Some now\<rparr> m)"

section \<open>Sending\<close>

text \<open>
  \<open>await sock.sendMessage(jid, { text })\<close>: the call is made (and recorded in the
  outbox); when the socket rejects, the rejection is thrown at the \<open>await\<close>.
  \<open>reply\<close> of commandHandler.js is this call.
\<close>

definition sendMessage :: "sock \<Rightarrow> string \<Rightarrow> message \<Rightarrow> world \<Rightarrow> (error + unit) \<times> world" where
  "sendMessage sk who text w =
     (let w1 = w\<lparr>outbox := outbox w @ [(who, text)]\<rparr>
      in if sk who text then (Inr (), w1) else (Inl TransportError, w1))"

definition reply :: "sock \<Rightarrow> string \<Rightarrow> message \<Rightarrow> world \<Rightarrow> (error + unit) \<times> world" where
  "reply sk who text w = sendMessage sk who text w"

section \<open>middleware/paymentGate.js\<close>

definition requirePro :: "env \<Rightarrow> string \<Rightarrow> sock \<Rightarrow> world \<Rightarrow> (error + bool) \<times> world" where
  "requirePro ev who sk w =
     (let (pro, m1) = isProUser who (users w);
          w1 = w\<lparr>users := m1\<rparr>
      in if pro then (Inr False, w1)
         else (case sendMessage sk who (PaymentRequired (paymentLink ev)) w1 of
                 (Inl e, w2) \<Rightarrow> (Inl e, w2)
               | (Inr _, w2) \<Rightarrow> (Inr True, w2)))"

section \<open>services/emailService.js\<close>

text \<open>
  \<open>sendWelcomeEmail\<close> builds the mail and awaits \<open>transporter.sendMail\<close>. When that
  resolves it logs the success and returns; when it rejects, the \<open>catch\<close> block logs
  the failure and throws the error again. The contents of the mail play no part
  below; the call is recorded by its recipient and the jid.
\<close>

definition sendWelcomeEmail :: "env \<Rightarrow> string \<Rightarrow> string \<Rightarrow> world \<Rightarrow> (error + unit) \<times> world" where
  "sendWelcomeEmail ev toEmail who w =
     (let w1 = w\<lparr>mails := mails w @ [(toEmail, who)]\<rparr>
      in if sendMail ev toEmail who
         then (Inr (), w1\<lparr>console := console w1 @ [LogEmailSent toEmail]\<rparr>)
         else (Inl SmtpError, w1\<lparr>console := console w1 @ [LogEmailFailed toEmail]\<rparr>))"

section \<open>Strings\<close>

text \<open>
  The white space of \<open>String.prototype.trim\<close> and of the class \<open>\s\<close> of a regular
  expression (the same set, WhiteSpace and LineTerminator of ECMAScript): below U+0100
  these are TAB, LF, VT, FF, CR, SPACE and NBSP.
\<close>

definition isWhiteSpace :: "char \<Rightarrow> bool" where
  "isWhiteSpace c =
     (c \<in> set [CHR 0x09, CHR 0x0A, CHR 0x0B, CHR 0x0C, CHR 0x0D, CHR 0x20, CHR 0xA0])"

definition trim :: "string \<Rightarrow> string" where
  "trim s = rev (dropWhile isWhiteSpace (rev (dropWhile isWhiteSpace s)))"

text \<open>
  \<open>s.split(/\s+/)\<close>: the pieces of \<open>s\<close> between the maximal runs of white space. A run
  at the start or at the end leaves an empty piece there, and the empty string
  splits into one empty piece. \<open>splitFrom tok s\<close> has read \<open>tok\<close> of the current piece.
\<close>

function splitFrom :: "string \<Rightarrow> string \<Rightarrow> string list" where
  "splitFrom tok [] = [tok]"
| "splitFrom tok (c # cs) =
     (if isWhiteSpace c then tok # splitFrom [] (dropWhile isWhiteSpace cs)
      else splitFrom (tok @ [c]) cs)"
  by pat_completeness auto
termination
  by (relation "measure (\<lambda>(tok, s). length s)")
     (auto simp: le_imp_less_Suc length_dropWhile_le)

definition splitWhiteSpace :: "string \<Rightarrow> string list" where
  "splitWhiteSpace s = splitFrom [] s"

text \<open>
  \<open>String.prototype.toLowerCase\<close> below U+0100: the letters A to Z and the letters
  U+00C0 to U+00DE other than the multiplication sign U+00D7 move up by 32; every
  other code unit stays.
\<close>

definition toLowerUnit :: "char \<Rightarrow> char" where
  "toLowerUnit c =
     (let n = (of_char c :: nat)
      in if (65 \<le> n \<and> n \<le> 90) \<or> (192 \<le> n \<and> n \<le> 222 \<and> n \<noteq> 215)
         then char_of (n + 32) else c)"

definition toLowerCase :: "string \<Rightarrow> string" where
  "toLowerCase s = map toLowerUnit s"

definition stringIncludes :: "string \<Rightarrow> char \<Rightarrow> bool" where
  "stringIncludes s c = (c \<in> set s)"

section \<open>handlers/commandHandler.js\<close>

text \<open>\<open>const ADMIN_JID = process.env.ADMIN_JID || "15550000000@s.whatsapp.net"\<close>\<close>

definition ADMIN_JID :: "env \<Rightarrow> string" where
  "ADMIN_JID ev =
     (case envAdminJid ev of
        None \<Rightarrow> ''15550000000@s.whatsapp.net''
      | Some a \<Rightarrow> (if a = [] then ''15550000000@s.whatsapp.net'' else a))"

definition handleStart :: "sock \<Rightarrow> string \<Rightarrow> world \<Rightarrow> (error + unit) \<times> world" where
  "handleStart sk who w = reply sk who Menu w"

text \<open>A \<open>Date\<close> object is truthy, so \<open>since\<close> is shown exactly when \<open>upgradedAt\<close> is set.\<close>

definition handleStatus :: "sock \<Rightarrow> string \<Rightarrow> world \<Rightarrow> (error + unit) \<times> world" where
  "handleStatus sk who w =
     (let (u, m1) = getUser who (users w);
          w1 = w\<lparr>users := m1\<rparr>
      in reply sk who (TierStatus (isPro u) (upgradedAt u)) w1)"

definition handlePremium :: "env \<Rightarrow> sock \<Rightarrow> string \<Rightarrow> world \<Rightarrow> (error + unit) \<times> world" where
  "handlePremium ev sk who w =
     (case requirePro ev who sk w of
        (Inl e, w1) \<Rightarrow> (Inl e, w1)
      | (Inr blocked, w1) \<Rightarrow>
          (if blocked then (Inr (), w1) else reply sk who ProZone w1))"

text \<open>
  \<open>const email = args[0]\<close> is \<open>undefined\<close> for an empty argument list. The welcome mail
  is not awaited: \<open>sendWelcomeEmail(email, jid).catch(...)\<close> starts it and attaches a
  handler that logs a rejection, so neither outcome reaches the caller. Its effects
  (the call of \<open>sendMail\<close>, the console lines) are placed right after the call.
\<close>

definition handleActivate ::
  "env \<Rightarrow> int \<Rightarrow> sock \<Rightarrow> string \<Rightarrow> string list \<Rightarrow> world \<Rightarrow> (error + unit) \<times> world" where
  "handleActivate ev now sk who args w =
     (let addr = (case args of [] \<Rightarrow> None | a # _ \<Rightarrow> Some a)
      in case addr of
           None \<Rightarrow> reply sk who UsageError w
         | Some a \<Rightarrow>
             (if a = [] \<or> \<not> stringIncludes a CHR ''@'' then reply sk who UsageError w
              else
                (let (u, m1) = getUser who (users w);
                     w1 = w\<lparr>users := m1\<rparr>
                 in if isPro u then reply sk who AlreadyPro w1
                    else
                      (let (u', m2) = upgradeUserToPro who (Some a) now (users w1);
                           w2 = w1\<lparr>users := m2\<rparr>
                       in case reply sk who (UpgradeConfirm a) w2 of
                            (Inl e, w3) \<Rightarrow> (Inl e, w3)
                          | (Inr _, w3) \<Rightarrow>
                              (case sendWelcomeEmail ev a who w3 of
                                 (Inl err, w4) \<Rightarrow>
                                   (Inr (), w4\<lparr>console := console w4 @ [LogActivateEmailError]\<rparr>)
                               | (Inr _, w4) \<Rightarrow> (Inr (), w4))))))"

definition handleAdmin :: "env \<Rightarrow> sock \<Rightarrow> string \<Rightarrow> world \<Rightarrow> (error + unit) \<times> world" where
  "handleAdmin ev sk who w =
     (case requirePro ev who sk w of
        (Inl e, w1) \<Rightarrow> (Inl e, w1)
      | (Inr blocked, w1) \<Rightarrow>
          (if blocked then (Inr (), w1)
           else if who \<noteq> ADMIN_JID ev then reply sk who AccessDenied w1
           else
             (let allUsers = listAllUsers (users w1);
                  proCount = int (length (filter isPro allUsers))
              in reply sk who
                   (AdminPanel (int (length allUsers)) proCount
                      (int (length allUsers) - proCount)) w1)))"

text \<open>
  The router. \<open>const [command, ...args] = trimmed.split(/\s+/)\<close> takes the first
  piece as the command; were there no piece, \<open>command\<close> would be \<open>undefined\<close> and
  \<open>command.toLowerCase()\<close> would throw. \<open>now\<close> is the clock reading of a
  \<open>new Date()\<close> made while the message is handled.
\<close>

definition handleMessage ::
  "env \<Rightarrow> int \<Rightarrow> sock \<Rightarrow> string \<Rightarrow> string \<Rightarrow> world \<Rightarrow> (error + unit) \<times> world" where
  "handleMessage ev now sk who text w =
     (let trimmed = trim text
      in case splitWhiteSpace trimmed of
           [] \<Rightarrow> (Inl TypeError, w)
         | command # args \<Rightarrow>
             (let w1 = w\<lparr>console := console w @ [LogCommand who command args]\<rparr>;
                  c = toLowerCase command
              in if c = ''/start'' \<or> c = ''/help'' then handleStart sk who w1
                 else if c = ''/status'' then handleStatus sk who w1
                 else if c = ''/premium'' then handlePremium ev sk who w1
                 else if c = ''/activate'' then handleActivate ev now sk who args w1
                 else if c = ''/admin'' then handleAdmin ev sk who w1
                 else (Inr (), w1)))"

section \<open>Histories of the store\<close>

text \<open>
  The store is reached only through the functions userDb.js exports. A history is
  the seeding at module load followed by a sequence of such calls; \<open>runStore\<close>
  gives the map it leaves.
\<close>

datatype storeCall =
    GetUser string
  | IsProUser string
  | UpgradeUserToPro string "string option" int
  | RevokeProAccess string
  | ListAllUsers

fun callStore :: "storeCall \<Rightarrow> userMap \<Rightarrow> userMap" where
  "callStore (GetUser who) m = snd (getUser who m)"
| "callStore (IsProUser who) m = snd (isProUser who m)"
| "callStore (UpgradeUserToPro who addr now) m = snd (upgradeUserToPro who addr now m)"
| "callStore (RevokeProAccess who) m = snd (revokeProAccess who m)"
| "callStore ListAllUsers m = m"

fun callsStore :: "storeCall list \<Rightarrow> userMap \<Rightarrow> userMap" where
  "callsStore [] m = m"
| "callsStore (c # cs) m = callsStore cs (callStore c m)"

definition runStore :: "(string \<times> int) list \<Rightarrow> storeCall list \<Rightarrow> userMap" where
  "runStore seeds cs = callsStore cs (seedUsers seeds [])"

text \<open>What the map holds for an identity: its tier, and its \<open>upgradedAt\<close>.\<close>

definition tierPro :: "string \<Rightarrow> userMap \<Rightarrow> bool" where
  "tierPro who m = (case mapGet m who of None \<Rightarrow> False | Some u \<Rightarrow> isPro u)"

definition upgradedAtOf :: "string \<Rightarrow> userMap \<Rightarrow> int option" where
  "upgradedAtOf who m = (case mapGet m who of None \<Rightarrow> None | Some u \<Rightarrow> upgradedAt u)"

text \<open>
  The clock readings a call makes, and the times at which the tier of \<open>who\<close> went from
  Free (or no record) to Pro in the course of a sequence of calls.
\<close>

fun clockReadings :: "storeCall \<Rightarrow> int list" where
  "clockReadings (UpgradeUserToPro who addr now) = [now]"
| "clockReadings c = []"

fun transitionTimes :: "string \<Rightarrow> storeCall list \<Rightarrow> userMap \<Rightarrow> int list" where
  "transitionTimes who [] m = []"
| "transitionTimes who (c # cs) m =
     (if \<not> tierPro who m \<and> tierPro who (callStore c m) then clockReadings c else [])
     @ transitionTimes who cs (callStore c m)"

text \<open>
  The times at which \<open>upgradedAt\<close> of \<open>who\<close> is assigned: the seeding iterations for
  \<open>who\<close>, then the calls of \<open>upgradeUserToPro\<close> for \<open>who\<close>.
\<close>

fun seedTimes :: "string \<Rightarrow> (string \<times> int) list \<Rightarrow> int list" where
  "seedTimes who [] = []"
| "seedTimes who ((k, now) # rest) = (if k = who then [now] else []) @ seedTimes who rest"

fun upgradeTimes :: "string \<Rightarrow> storeCall list \<Rightarrow> int list" where
  "upgradeTimes who [] = []"
| "upgradeTimes who (UpgradeUserToPro k addr now # cs) =
     (if k = who then [now] else []) @ upgradeTimes who cs"
| "upgradeTimes who (c # cs) = upgradeTimes who cs"

definition lastOf :: "int list \<Rightarrow> int option" where
  "lastOf ts = (case rev ts of [] \<Rightarrow> None | t # _ \<Rightarrow> Some t)"

section \<open>Sample inputs\<close>

text \<open>
  A configuration with no \<open>ADMIN_JID\<close> in the environment, a socket that delivers
  every message and one that rejects every message, a mailer that fails, and three
  worlds: nothing stored; the default administrator seeded as Pro; and the
  administrator together with a second Pro identity.
\<close>

definition sampleEnv :: env where
  "sampleEnv = \<lparr>paymentLink = ''https://pay.example/pro'', envAdminJid = None,
                sendMail = (\<lambda>toEmail who. False)\<rparr>"

definition delivering :: sock where
  "delivering who text = True"

definition rejecting :: sock where
  "rejecting who text = False"

definition emptyWorld :: world where
  "emptyWorld = \<lparr>users = [], outbox = [], mails = [], console = []\<rparr>"

definition seededWorld :: world where
  "seededWorld =
     \<lparr>users = seedUsers [(''15550000000@s.whatsapp.net'', 1000)] [],
      outbox = [], mails = [], console = []\<rparr>"

definition twoProWorld :: world where
  "twoProWorld =
     \<lparr>users = seedUsers [(''15550000000@s.whatsapp.net'', 1000), (''42@s.whatsapp.net'', 1001)] [],
      outbox = [], mails = [], console = []\<rparr>"

section \<open>The map and the store functions\<close>

text \<open>
  \<open>mapSet\<close> stores under the key and touches no other key; on an absent key it
  appends. \<open>getUser\<close> returns the record of a known identity and leaves the map as
  it is, and appends the default record for an unknown one.
\<close>

lemma map_of_mapSet: "map_of (mapSet k v m) = (map_of m)(k \<mapsto> v)"
  by (induction m) (auto simp: fun_eq_iff)

lemma mapSet_absent: "map_of m k = None \<Longrightarrow> mapSet k v m = m @ [(k, v)]"
  by (induction m) (auto split: if_splits)

lemma getUser_present: "map_of m who = Some u \<Longrightarrow> getUser who m = (u, m)"
  by (simp add: getUser_def mapHas_def mapGet_def)

lemma getUser_absent:
  "map_of m who = None \<Longrightarrow>
   getUser who m =
     (\<lparr>jid = who, isPro = False, email = None, upgradedAt = None\<rparr>,
      m @ [(who, \<lparr>jid = who, isPro = False, email = None, upgradedAt = None\<rparr>)])"
  by (simp add: getUser_def mapHas_def mapGet_def map_of_mapSet Let_def) (simp add: mapSet_absent)

lemma isProUser_present: "map_of m who = Some u \<Longrightarrow> isProUser who m = (isPro u, m)"
  by (simp add: isProUser_def getUser_present)

lemma isProUser_absent:
  "map_of m who = None \<Longrightarrow>
   isProUser who m =
     (False, m @ [(who, \<lparr>jid = who, isPro = False, email = None, upgradedAt = None\<rparr>)])"
  by (simp add: isProUser_def getUser_absent)

text \<open>
  The three cases of \<open>requirePro\<close>: a Pro record, a record that is not Pro, and no
  record. In the last two the payment message is handed to the socket, and a
  rejection by the socket is thrown on to the caller in place of the return value.
\<close>

lemma requirePro_pro:
  "map_of (users w) who = Some u \<Longrightarrow> isPro u \<Longrightarrow> requirePro ev who sk w = (Inr False, w)"
  by (simp add: requirePro_def isProUser_present)

lemma requirePro_free:
  "map_of (users w) who = Some u \<Longrightarrow> \<not> isPro u \<Longrightarrow>
   requirePro ev who sk w =
     (if sk who (PaymentRequired (paymentLink ev)) then Inr True else Inl TransportError,
      w\<lparr>outbox := outbox w @ [(who, PaymentRequired (paymentLink ev))]\<rparr>)"
  by (simp add: requirePro_def isProUser_present sendMessage_def)

lemma requirePro_absent:
  "map_of (users w) who = None \<Longrightarrow>
   requirePro ev who sk w =
     (if sk who (PaymentRequired (paymentLink ev)) then Inr True else Inl TransportError,
      w\<lparr>users := users w @ [(who, \<lparr>jid = who, isPro = False, email = None, upgradedAt = None\<rparr>)],
        outbox := outbox w @ [(who, PaymentRequired (paymentLink ev))]\<rparr>)"
  by (simp add: requirePro_def isProUser_absent sendMessage_def)

lemma requirePro_rejected:
  "\<not> fst (isProUser who (users w)) \<Longrightarrow> \<not> sk who (PaymentRequired (paymentLink ev)) \<Longrightarrow>
   fst (requirePro ev who sk w) = Inl TransportError \<and>
   outbox (snd (requirePro ev who sk w)) = outbox w @ [(who, PaymentRequired (paymentLink ev))]"
  by (cases "map_of (users w) who")
     (auto simp: requirePro_absent requirePro_free isProUser_present isProUser_absent)

section \<open>The payment gate\<close>

text \<open>
  Claim C1. On a socket that accepts the payment message, \<open>requirePro\<close> returns
  \<open>true\<close> and sends exactly one message, the payment-required text with the payment
  link, if and only if \<open>isProUser\<close> is false for the identity at the call; it
  returns \<open>false\<close> and sends nothing if and only if \<open>isProUser\<close> is true.
\<close>

theorem requirePro_gate:
  assumes "sk who (PaymentRequired (paymentLink ev))"
  shows "((fst (requirePro ev who sk w) = Inr True \<and>
           outbox (snd (requirePro ev who sk w)) =
             outbox w @ [(who, PaymentRequired (paymentLink ev))])
          \<longleftrightarrow> \<not> fst (isProUser who (users w))) \<and>
         ((fst (requirePro ev who sk w) = Inr False \<and>
           outbox (snd (requirePro ev who sk w)) = outbox w)
          \<longleftrightarrow> fst (isProUser who (users w)))"
proof (cases "map_of (users w) who")
  case None
  with assms show ?thesis
    by (simp add: requirePro_absent isProUser_absent)
next
  case (Some u)
  with assms show ?thesis
    by (cases "isPro u") (simp_all add: requirePro_pro requirePro_free isProUser_present)
qed

theorem requirePro_gate_witness:
  "fst (requirePro sampleEnv ''7@s.whatsapp.net'' delivering emptyWorld) = Inr True \<and>
   outbox (snd (requirePro sampleEnv ''7@s.whatsapp.net'' delivering emptyWorld)) =
     [(''7@s.whatsapp.net'', PaymentRequired ''https://pay.example/pro'')] \<and>
   fst (requirePro sampleEnv ''15550000000@s.whatsapp.net'' delivering seededWorld) = Inr False \<and>
   outbox (snd (requirePro sampleEnv ''15550000000@s.whatsapp.net'' delivering seededWorld)) = []"
  using requirePro_gate [of delivering "''7@s.whatsapp.net''" sampleEnv emptyWorld]
    requirePro_gate [of delivering "''15550000000@s.whatsapp.net''" sampleEnv seededWorld]
  by (simp add: delivering_def sampleEnv_def emptyWorld_def seededWorld_def
      isProUser_def getUser_def mapHas_def mapGet_def)

section \<open>Routing\<close>

text \<open>Where the router sends the literal inputs used below, and that a split is never empty.\<close>

lemmas route_eval =
  handleMessage_def splitWhiteSpace_def trim_def isWhiteSpace_def toLowerCase_def
  toLowerUnit_def char_of_def

lemma route_status:
  "handleMessage ev now sk who ''/status'' w =
     handleStatus sk who (w\<lparr>console := console w @ [LogCommand who ''/status'' []]\<rparr>)"
  by (simp add: route_eval)

lemma route_premium:
  "handleMessage ev now sk who ''/premium'' w =
     handlePremium ev sk who (w\<lparr>console := console w @ [LogCommand who ''/premium'' []]\<rparr>)"
  by (simp add: route_eval)

lemma route_admin:
  "handleMessage ev now sk who ''/admin'' w =
     handleAdmin ev sk who (w\<lparr>console := console w @ [LogCommand who ''/admin'' []]\<rparr>)"
  by (simp add: route_eval)

lemma route_activate_address:
  "handleMessage ev now sk who ''/activate user@test.com'' w =
     handleActivate ev now sk who [''user@test.com'']
       (w\<lparr>console := console w @ [LogCommand who ''/activate'' [''user@test.com'']]\<rparr>)"
  by (simp add: route_eval)

lemma splitFrom_not_Nil: "splitFrom tok s \<noteq> []"
  by (induction tok s rule: splitFrom.induct) auto

lemma splitWhiteSpace_not_Nil: "splitWhiteSpace s \<noteq> []"
  by (simp add: splitWhiteSpace_def splitFrom_not_Nil)

section \<open>Upgrading twice\<close>

text \<open>
  Claim C2 says that a second \<open>upgradeUserToPro\<close> with the same address leaves
  \<open>upgradedAt\<close> as the first call set it. \<open>upgradeUserToPro\<close> assigns
  \<open>user.upgradedAt = new Date()\<close> on every call: upgrading an identity of the empty
  store at time 1000 and again at time 2000 gives 1000 and then 2000.
\<close>

theorem upgradeUserToPro_twice_counterexample:
  "upgradedAt (fst (upgradeUserToPro ''7@s.whatsapp.net'' (Some ''a@b.com'') 1000 [])) = Some 1000 \<and>
   upgradedAt (fst (upgradeUserToPro ''7@s.whatsapp.net'' (Some ''a@b.com'') 2000
     (snd (upgradeUserToPro ''7@s.whatsapp.net'' (Some ''a@b.com'') 1000 [])))) = Some 2000"
  by (simp add: upgradeUserToPro_def getUser_def mapHas_def mapGet_def truthy_def Let_def)

text \<open>\<open>upgradeUserToPro\<close> in one step, and the record it returns is the one it stores.\<close>

lemma upgradeUserToPro_result:
  "upgradeUserToPro who addr now m =
     (let u = fst (getUser who m);
          u' = (if truthy addr then u\<lparr>isPro := True, upgradedAt := Some now, email := addr\<rparr>
                else u\<lparr>isPro := True, upgradedAt := Some now\<rparr>)
      in (u', mapSet who u' (snd (getUser who m))))"
  by (simp add: upgradeUserToPro_def Let_def split: prod.splits)

lemma getUser_stored: "mapGet (snd (getUser who m)) who = Some (fst (getUser who m))"
  by (cases "map_of m who") (simp_all add: getUser_present getUser_absent mapGet_def map_add_def)

lemma mapGet_mapSet: "mapGet (mapSet k v m) k' = (if k' = k then Some v else mapGet m k')"
  by (simp add: mapGet_def map_of_mapSet)

lemma upgradeUserToPro_stored:
  "mapGet (snd (upgradeUserToPro who addr now m)) who = Some (fst (upgradeUserToPro who addr now m))"
  by (simp add: upgradeUserToPro_result Let_def mapGet_mapSet)

text \<open>
  Claim C2, amended. For every identity and every store, two calls of
  \<open>upgradeUserToPro\<close> in a row with the address \<open>a@b.com\<close> both return a Pro record
  with that address; \<open>upgradedAt\<close> after each call is the clock reading of that call.
  The second call changes nothing but \<open>upgradedAt\<close>, and the two values agree
  exactly when the two clock readings do.
\<close>

theorem upgradeUserToPro_twice:
  fixes who :: string and m :: userMap and t1 t2 :: int
  defines "first \<equiv> upgradeUserToPro who (Some ''a@b.com'') t1 m"
  defines "second \<equiv> upgradeUserToPro who (Some ''a@b.com'') t2 (snd first)"
  shows "isPro (fst first) \<and> email (fst first) = Some ''a@b.com'' \<and>
         upgradedAt (fst first) = Some t1 \<and>
         isPro (fst second) \<and> email (fst second) = Some ''a@b.com'' \<and>
         upgradedAt (fst second) = Some t2 \<and>
         fst second = (fst first)\<lparr>upgradedAt := Some t2\<rparr> \<and>
         mapGet (snd second) who = Some (fst second) \<and>
         (upgradedAt (fst second) = upgradedAt (fst first) \<longleftrightarrow> t2 = t1)"
proof -
  have stored: "map_of (snd first) who = Some (fst first)"
    using upgradeUserToPro_stored [of who "Some ''a@b.com''" t1 m]
    by (simp add: first_def mapGet_def)
  have one: "isPro (fst first) \<and> email (fst first) = Some ''a@b.com'' \<and>
             upgradedAt (fst first) = Some t1"
    by (simp add: first_def upgradeUserToPro_result truthy_def Let_def)
  have two: "fst second = (fst first)\<lparr>upgradedAt := Some t2\<rparr>"
    using one by (simp add: second_def upgradeUserToPro_result truthy_def Let_def
        getUser_present [OF stored])
  have three: "mapGet (snd second) who = Some (fst second)"
    by (simp add: second_def upgradeUserToPro_stored)
  show ?thesis using one two three by simp
qed


section \<open>The activate command\<close>

text \<open>
  The three ways through \<open>handleActivate\<close>: the usage error, the already-Pro notice,
  and the upgrade with its confirmation and welcome mail.
\<close>

lemma reply_result:
  "reply sk who text w =
     (if sk who text then Inr () else Inl TransportError,
      w\<lparr>outbox := outbox w @ [(who, text)]\<rparr>)"
  by (simp add: reply_def sendMessage_def)

lemma route_activate:
  "splitWhiteSpace (trim text) = command # args \<Longrightarrow> toLowerCase command = ''/activate'' \<Longrightarrow>
   handleMessage ev now sk who text w =
     handleActivate ev now sk who args
       (w\<lparr>console := console w @ [LogCommand who command args]\<rparr>)"
  by (simp add: handleMessage_def)

lemma handleActivate_usage:
  "(case args of [] \<Rightarrow> True | a # rest \<Rightarrow> \<not> stringIncludes a CHR ''@'') \<Longrightarrow>
   handleActivate ev now sk who args w = reply sk who UsageError w"
  by (auto simp: handleActivate_def stringIncludes_def split: list.splits)

lemma handleActivate_pro:
  "stringIncludes a CHR ''@'' \<Longrightarrow> map_of (users w) who = Some u \<Longrightarrow> isPro u \<Longrightarrow>
   handleActivate ev now sk who (a # rest) w = reply sk who AlreadyPro w"
  by (auto simp: handleActivate_def stringIncludes_def getUser_present)

lemma handleActivate_free:
  assumes "stringIncludes a CHR ''@''" and "\<not> fst (isProUser who (users w))"
  shows "handleActivate ev now sk who (a # rest) w =
     (let u' = (fst (getUser who (users w)))\<lparr>isPro := True, upgradedAt := Some now, email := Some a\<rparr>;
          w2 = w\<lparr>users := mapSet who u' (snd (getUser who (users w))),
                 outbox := outbox w @ [(who, UpgradeConfirm a)]\<rparr>
      in if \<not> sk who (UpgradeConfirm a) then (Inl TransportError, w2)
         else (Inr (),
               w2\<lparr>mails := mails w @ [(a, who)],
                  console := console w @
                    (if sendMail ev a who then [LogEmailSent a]
                     else [LogEmailFailed a, LogActivateEmailError])\<rparr>))"
proof -
  from assms(1) have ne: "a \<noteq> []" by (auto simp: stringIncludes_def)
  obtain u m1 where g: "getUser who (users w) = (u, m1)" by (cases "getUser who (users w)")
  from assms(2) g have free: "\<not> isPro u" by (simp add: isProUser_def)
  have again: "getUser who m1 = (u, m1)"
    using getUser_stored [of who "users w"] g by (simp add: mapGet_def getUser_present)
  show ?thesis
    using assms(1) ne free
    by (simp add: handleActivate_def g again upgradeUserToPro_result truthy_def reply_result
        sendWelcomeEmail_def Let_def)
qed


lemma isProUser_true: "fst (isProUser who m) \<Longrightarrow> \<exists>u. map_of m who = Some u \<and> isPro u"
  by (cases "map_of m who") (simp_all add: isProUser_absent isProUser_present)

lemma toLowerCase_activate: "toLowerCase ''/activate'' = ''/activate''"
  by code_simp

lemma handleActivate_valid_outbox:
  assumes at: "stringIncludes a CHR ''@''"
  shows "outbox (snd (handleActivate ev now sk who (a # rest) w)) = outbox w @ [(who, AlreadyPro)] \<or>
         outbox (snd (handleActivate ev now sk who (a # rest) w)) = outbox w @ [(who, UpgradeConfirm a)]"
proof (cases "fst (isProUser who (users w))")
  case True
  then obtain u where "map_of (users w) who = Some u" and "isPro u"
    using isProUser_true by blast
  then show ?thesis
    by (simp add: handleActivate_pro [OF at] reply_result)
next
  case False
  show ?thesis
    by (simp add: handleActivate_free [OF at False] Let_def)
qed

text \<open>
  Claim C3, amended. For an input whose command is \<open>/activate\<close> in any case, the
  router looks at the first argument only. When there is none, or it has no \<open>@\<close>,
  exactly one usage-error reply is sent, the store is unchanged and no mail is sent.
  When the first argument has an \<open>@\<close>, the reply is the already-Pro notice or the
  upgrade confirmation naming that argument, whatever arguments follow.
\<close>

theorem activate_first_argument_validated:
  assumes "splitWhiteSpace (trim text) = command # args"
    and "toLowerCase command = ''/activate''"
  shows "let R = handleMessage ev now sk who text w in
     ((case args of [] \<Rightarrow> True | a # rest \<Rightarrow> \<not> stringIncludes a CHR ''@'') \<longrightarrow>
        outbox (snd R) = outbox w @ [(who, UsageError)] \<and>
        users (snd R) = users w \<and> mails (snd R) = mails w) \<and>
     (\<forall>a rest. args = a # rest \<and> stringIncludes a CHR ''@'' \<longrightarrow>
        outbox (snd R) = outbox w @ [(who, AlreadyPro)] \<or>
        outbox (snd R) = outbox w @ [(who, UpgradeConfirm a)])"
proof -
  let ?w1 = "w\<lparr>console := console w @ [LogCommand who command args]\<rparr>"
  have r: "handleMessage ev now sk who text w = handleActivate ev now sk who args ?w1"
    using assms by (rule route_activate)
  have invalid: "outbox (snd (handleActivate ev now sk who args ?w1)) = outbox w @ [(who, UsageError)] \<and>
      users (snd (handleActivate ev now sk who args ?w1)) = users w \<and>
      mails (snd (handleActivate ev now sk who args ?w1)) = mails w"
    if "case args of [] \<Rightarrow> True | a # rest \<Rightarrow> \<not> stringIncludes a CHR ''@''"
    using that by (simp add: handleActivate_usage reply_result)
  have valid: "outbox (snd (handleActivate ev now sk who args ?w1)) = outbox w @ [(who, AlreadyPro)] \<or>
      outbox (snd (handleActivate ev now sk who args ?w1)) = outbox w @ [(who, UpgradeConfirm a)]"
    if "args = a # rest" and "stringIncludes a CHR ''@''" for a rest
    using that handleActivate_valid_outbox [of a ev now sk who rest ?w1] by simp
  show ?thesis
    unfolding Let_def r using invalid valid by blast
qed

theorem activate_first_argument_validated_witness:
  "outbox (snd (handleMessage sampleEnv 5000 delivering ''7@s.whatsapp.net''
      ''/activate not-an-email'' emptyWorld)) = [(''7@s.whatsapp.net'', UsageError)] \<and>
   users (snd (handleMessage sampleEnv 5000 delivering ''7@s.whatsapp.net''
      ''/activate not-an-email'' emptyWorld)) = [] \<and>
   mails (snd (handleMessage sampleEnv 5000 delivering ''7@s.whatsapp.net''
      ''/activate not-an-email'' emptyWorld)) = [] \<and>
   outbox (snd (handleMessage sampleEnv 5000 delivering ''7@s.whatsapp.net''
      ''  /ACTIVATE  '' emptyWorld)) = [(''7@s.whatsapp.net'', UsageError)]"
proof -
  have s1: "splitWhiteSpace (trim ''/activate not-an-email'') = [''/activate'', ''not-an-email'']"
    by (simp add: splitWhiteSpace_def trim_def isWhiteSpace_def)
  have s2: "splitWhiteSpace (trim ''  /ACTIVATE  '') = [''/ACTIVATE'']"
    by (simp add: splitWhiteSpace_def trim_def isWhiteSpace_def)
  have l2: "toLowerCase ''/ACTIVATE'' = ''/activate''"
    by code_simp
  show ?thesis
    using activate_first_argument_validated [OF s1 toLowerCase_activate,
        of sampleEnv 5000 delivering "''7@s.whatsapp.net''" emptyWorld]
      activate_first_argument_validated [OF s2 l2,
        of sampleEnv 5000 delivering "''7@s.whatsapp.net''" emptyWorld]
    by (simp add: Let_def stringIncludes_def emptyWorld_def)
qed

text \<open>
  Claim C3 says that more than one argument is rejected with a usage error and no
  change of the store. \<open>handleActivate\<close> reads \<open>args[0]\<close> and nothing else:
  \<open>/activate a@b.com extra\<close> from an unseen identity is confirmed, the identity is
  upgraded and the welcome mail is sent.
\<close>

theorem activate_extra_argument_counterexample:
  "outbox (snd (handleMessage sampleEnv 5000 delivering ''7@s.whatsapp.net''
      ''/activate a@b.com extra'' emptyWorld)) =
     [(''7@s.whatsapp.net'', UpgradeConfirm ''a@b.com'')] \<and>
   users (snd (handleMessage sampleEnv 5000 delivering ''7@s.whatsapp.net''
      ''/activate a@b.com extra'' emptyWorld)) =
     [(''7@s.whatsapp.net'',
       \<lparr>jid = ''7@s.whatsapp.net'', isPro = True, email = Some ''a@b.com'',
        upgradedAt = Some 5000\<rparr>)] \<and>
   mails (snd (handleMessage sampleEnv 5000 delivering ''7@s.whatsapp.net''
      ''/activate a@b.com extra'' emptyWorld)) = [(''a@b.com'', ''7@s.whatsapp.net'')]"
proof -
  have s: "splitWhiteSpace (trim ''/activate a@b.com extra'') = [''/activate'', ''a@b.com'', ''extra'']"
    by (simp add: splitWhiteSpace_def trim_def isWhiteSpace_def)
  have at: "stringIncludes ''a@b.com'' CHR ''@''"
    by (simp add: stringIncludes_def)
  have free: "\<not> fst (isProUser ''7@s.whatsapp.net''
      (users (emptyWorld\<lparr>console := console emptyWorld @
         [LogCommand ''7@s.whatsapp.net'' ''/activate'' [''a@b.com'', ''extra'']]\<rparr>)))"
    by (simp add: emptyWorld_def isProUser_absent)
  show ?thesis
    unfolding route_activate [OF s toLowerCase_activate] handleActivate_free [OF at free]
    by (simp add: Let_def delivering_def emptyWorld_def getUser_absent)
qed


lemma mapGet_getUser_other:
  "k \<noteq> who \<Longrightarrow> mapGet (snd (getUser who m)) k = mapGet m k"
  by (cases "map_of m who") (simp_all add: getUser_present getUser_absent mapGet_def map_add_def split: option.splits)

text \<open>
  Claim C4. For an identity that is not Pro at the call (with or without a record),
  and a socket that accepts the confirmation, routing \<open>/activate user@test.com\<close>
  returns normally, sends exactly one reply (the upgrade confirmation naming the
  address), makes the identity's record Pro with that address and the time of the
  call while every other identity keeps what it had, and calls the mailer exactly
  once. This holds whether the mailer resolves or rejects: a rejection adds two
  lines to the console and nothing else.
\<close>

theorem activate_free_identity:
  assumes "\<not> fst (isProUser who (users w))"
    and "sk who (UpgradeConfirm ''user@test.com'')"
  shows "let R = handleMessage ev now sk who ''/activate user@test.com'' w in
     fst R = Inr () \<and>
     outbox (snd R) = outbox w @ [(who, UpgradeConfirm ''user@test.com'')] \<and>
     mapGet (users (snd R)) who =
       Some ((fst (getUser who (users w)))
               \<lparr>isPro := True, upgradedAt := Some now, email := Some ''user@test.com''\<rparr>) \<and>
     (\<forall>k. k \<noteq> who \<longrightarrow> mapGet (users (snd R)) k = mapGet (users w) k) \<and>
     mails (snd R) = mails w @ [(''user@test.com'', who)] \<and>
     console (snd R) =
       console w @ [LogCommand who ''/activate'' [''user@test.com'']] @
       (if sendMail ev ''user@test.com'' who then [LogEmailSent ''user@test.com'']
        else [LogEmailFailed ''user@test.com'', LogActivateEmailError])"
proof -
  let ?w1 = "w\<lparr>console := console w @ [LogCommand who ''/activate'' [''user@test.com'']]\<rparr>"
  have at: "stringIncludes ''user@test.com'' CHR ''@''"
    by (simp add: stringIncludes_def)
  have free: "\<not> fst (isProUser who (users ?w1))"
    using assms(1) by simp
  show ?thesis
    unfolding route_activate_address handleActivate_free [OF at free]
    using assms(2) by (simp add: Let_def mapGet_mapSet mapGet_getUser_other)
qed

theorem activate_free_identity_witness:
  "fst (handleMessage sampleEnv 5000 delivering ''7@s.whatsapp.net''
      ''/activate user@test.com'' emptyWorld) = Inr () \<and>
   snd (handleMessage sampleEnv 5000 delivering ''7@s.whatsapp.net''
      ''/activate user@test.com'' emptyWorld) =
     \<lparr>users = [(''7@s.whatsapp.net'',
         \<lparr>jid = ''7@s.whatsapp.net'', isPro = True, email = Some ''user@test.com'',
          upgradedAt = Some 5000\<rparr>)],
      outbox = [(''7@s.whatsapp.net'', UpgradeConfirm ''user@test.com'')],
      mails = [(''user@test.com'', ''7@s.whatsapp.net'')],
      console = [LogCommand ''7@s.whatsapp.net'' ''/activate'' [''user@test.com''],
                 LogEmailFailed ''user@test.com'', LogActivateEmailError]\<rparr>"
proof -
  have free: "\<not> fst (isProUser ''7@s.whatsapp.net'' (users emptyWorld))"
    by (simp add: emptyWorld_def isProUser_absent)
  have ok: "delivering ''7@s.whatsapp.net'' (UpgradeConfirm ''user@test.com'')"
    by (simp add: delivering_def)
  have shape: "users (snd (handleMessage sampleEnv 5000 delivering ''7@s.whatsapp.net''
      ''/activate user@test.com'' emptyWorld)) =
     [(''7@s.whatsapp.net'',
         \<lparr>jid = ''7@s.whatsapp.net'', isPro = True, email = Some ''user@test.com'',
          upgradedAt = Some 5000\<rparr>)]"
    unfolding route_activate_address
    by (simp add: handleActivate_def stringIncludes_def emptyWorld_def getUser_def mapHas_def
        mapGet_def upgradeUserToPro_def truthy_def reply_result sendWelcomeEmail_def Let_def
        split: prod.splits)
  show ?thesis
    using free ok shape
      activate_free_identity [where who = "''7@s.whatsapp.net''" and w = emptyWorld
        and sk = delivering and ev = sampleEnv and now = 5000]
    by (cases "snd (handleMessage sampleEnv 5000 delivering ''7@s.whatsapp.net''
      ''/activate user@test.com'' emptyWorld)")
       (simp add: Let_def sampleEnv_def emptyWorld_def)
qed

text \<open>
  Claim C5. For an identity that is Pro at the call, routing
  \<open>/activate user@test.com\<close> sends exactly one reply, the already-Pro notice, leaves
  the whole store as it was (tier, address and \<open>upgradedAt\<close> of every record) and
  sends no mail.
\<close>

theorem activate_already_pro:
  assumes "fst (isProUser who (users w))"
  shows "let R = handleMessage ev now sk who ''/activate user@test.com'' w in
     outbox (snd R) = outbox w @ [(who, AlreadyPro)] \<and>
     users (snd R) = users w \<and>
     mails (snd R) = mails w \<and>
     fst R = (if sk who AlreadyPro then Inr () else Inl TransportError)"
proof -
  obtain u where u: "map_of (users w) who = Some u" "isPro u"
    using assms isProUser_true by blast
  have at: "stringIncludes ''user@test.com'' CHR ''@''"
    by (simp add: stringIncludes_def)
  show ?thesis
    unfolding route_activate_address
    using u by (simp add: handleActivate_pro [OF at] reply_result)
qed

theorem activate_already_pro_witness:
  "outbox (snd (handleMessage sampleEnv 5000 delivering ''15550000000@s.whatsapp.net''
      ''/activate user@test.com'' seededWorld)) =
     [(''15550000000@s.whatsapp.net'', AlreadyPro)] \<and>
   users (snd (handleMessage sampleEnv 5000 delivering ''15550000000@s.whatsapp.net''
      ''/activate user@test.com'' seededWorld)) =
     [(''15550000000@s.whatsapp.net'',
       \<lparr>jid = ''15550000000@s.whatsapp.net'', isPro = True, email = None,
        upgradedAt = Some 1000\<rparr>)] \<and>
   mails (snd (handleMessage sampleEnv 5000 delivering ''15550000000@s.whatsapp.net''
      ''/activate user@test.com'' seededWorld)) = [] \<and>
   fst (handleMessage sampleEnv 5000 delivering ''15550000000@s.whatsapp.net''
      ''/activate user@test.com'' seededWorld) = Inr ()"
proof -
  have pro: "fst (isProUser ''15550000000@s.whatsapp.net'' (users seededWorld))"
    by (simp add: seededWorld_def isProUser_def getUser_def mapHas_def mapGet_def)
  show ?thesis
    using activate_already_pro [OF pro, of sampleEnv 5000 delivering]
    by (simp add: Let_def seededWorld_def delivering_def)
qed


text \<open>What the gated handlers do to the store, and the two branches of \<open>handleAdmin\<close> behind the gate.\<close>

lemma handlePremium_users:
  "users (snd (handlePremium ev sk who w)) = snd (getUser who (users w)) \<and>
   mails (snd (handlePremium ev sk who w)) = mails w"
  by (cases "map_of (users w) who")
     (auto simp: handlePremium_def requirePro_def isProUser_def getUser_present getUser_absent
        sendMessage_def reply_result Let_def)

lemma handleAdmin_blocked:
  "\<not> fst (isProUser who (users w)) \<Longrightarrow>
   outbox (snd (handleAdmin ev sk who w)) = outbox w @ [(who, PaymentRequired (paymentLink ev))]"
  by (cases "map_of (users w) who")
     (auto simp: handleAdmin_def requirePro_absent requirePro_free isProUser_present)

lemma handleAdmin_pro:
  "map_of (users w) who = Some u \<Longrightarrow> isPro u \<Longrightarrow>
   handleAdmin ev sk who w =
     (if who \<noteq> ADMIN_JID ev then reply sk who AccessDenied w
      else reply sk who
             (AdminPanel (int (length (listAllUsers (users w))))
                (int (length (filter isPro (listAllUsers (users w)))))
                (int (length (listAllUsers (users w))) -
                 int (length (filter isPro (listAllUsers (users w)))))) w)"
  by (simp add: handleAdmin_def requirePro_pro Let_def)

lemma free_count:
  "int (length us) - int (length (filter isPro us)) = int (length (filter (\<lambda>u. \<not> isPro u) us))"
  using sum_length_filter_compl [of isPro us] by simp

lemma count_split:
  "int (length (filter (\<lambda>u. \<not> isPro u) us)) + int (length (filter isPro us)) = int (length us)"
  using sum_length_filter_compl [of isPro us] by simp

section \<open>The admin panel\<close>

text \<open>
  Claim C6. Routing \<open>/admin\<close> runs the Pro gate first: an identity that is not Pro
  gets the payment message and nothing else. A Pro identity other than
  \<open>ADMIN_JID\<close> gets exactly one access-denied reply and no statistics, and the store
  is unchanged. The Pro administrator gets one panel whose Free and Pro numbers add
  up to the total, the total being the number of records, the Pro number the number
  of Pro records and the Free number the number of records that are not Pro.
\<close>

theorem admin_gates:
  "let R = handleMessage ev now sk who ''/admin'' w;
       pro = fst (isProUser who (users w));
       allUsers = listAllUsers (users w)
   in (\<not> pro \<longrightarrow> outbox (snd R) = outbox w @ [(who, PaymentRequired (paymentLink ev))]) \<and>
      (pro \<and> who \<noteq> ADMIN_JID ev \<longrightarrow>
         outbox (snd R) = outbox w @ [(who, AccessDenied)] \<and> users (snd R) = users w) \<and>
      (pro \<and> who = ADMIN_JID ev \<longrightarrow>
         (\<exists>total proCount freeCount.
            outbox (snd R) = outbox w @ [(who, AdminPanel total proCount freeCount)] \<and>
            freeCount + proCount = total \<and>
            total = int (length allUsers) \<and>
            proCount = int (length (filter isPro allUsers)) \<and>
            freeCount = int (length (filter (\<lambda>u. \<not> isPro u) allUsers))))"
proof (cases "fst (isProUser who (users w))")
  case False
  then show ?thesis
    unfolding route_admin by (simp add: handleAdmin_blocked)
next
  case True
  then obtain u where u: "map_of (users w) who = Some u" "isPro u"
    using isProUser_true by blast
  show ?thesis
    unfolding route_admin
    using True u by (simp add: handleAdmin_pro reply_result free_count count_split Let_def)
qed

lemma ADMIN_JID_sample: "ADMIN_JID sampleEnv = ''15550000000@s.whatsapp.net''"
  by (simp add: ADMIN_JID_def sampleEnv_def)

theorem admin_gates_witness:
  "outbox (snd (handleMessage sampleEnv 5000 delivering ''7@s.whatsapp.net'' ''/admin'' emptyWorld)) =
     [(''7@s.whatsapp.net'', PaymentRequired ''https://pay.example/pro'')] \<and>
   outbox (snd (handleMessage sampleEnv 5000 delivering ''42@s.whatsapp.net'' ''/admin'' twoProWorld)) =
     [(''42@s.whatsapp.net'', AccessDenied)] \<and>
   outbox (snd (handleMessage sampleEnv 5000 delivering ''15550000000@s.whatsapp.net'' ''/admin''
      twoProWorld)) = [(''15550000000@s.whatsapp.net'', AdminPanel 2 2 0)]"
proof -
  have a: "\<not> fst (isProUser ''7@s.whatsapp.net'' (users emptyWorld))"
    by (simp add: emptyWorld_def isProUser_absent)
  have b: "fst (isProUser ''42@s.whatsapp.net'' (users twoProWorld))"
    by (simp add: twoProWorld_def isProUser_def getUser_def mapHas_def mapGet_def)
  have c: "fst (isProUser ''15550000000@s.whatsapp.net'' (users twoProWorld))"
    by (simp add: twoProWorld_def isProUser_def getUser_def mapHas_def mapGet_def)
  have l: "listAllUsers (users twoProWorld) =
     [\<lparr>jid = ''15550000000@s.whatsapp.net'', isPro = True, email = None, upgradedAt = Some 1000\<rparr>,
      \<lparr>jid = ''42@s.whatsapp.net'', isPro = True, email = None, upgradedAt = Some 1001\<rparr>]"
    by (simp add: twoProWorld_def listAllUsers_def)
  show ?thesis
    using a b c
      admin_gates [of sampleEnv 5000 delivering "''7@s.whatsapp.net''" emptyWorld]
      admin_gates [of sampleEnv 5000 delivering "''42@s.whatsapp.net''" twoProWorld]
      admin_gates [of sampleEnv 5000 delivering "''15550000000@s.whatsapp.net''" twoProWorld]
    by (simp add: Let_def ADMIN_JID_sample l) (simp add: sampleEnv_def emptyWorld_def twoProWorld_def)
qed

section \<open>The premium command\<close>

text \<open>
  Claim C7 says that \<open>/premium\<close> never changes the store, also for an identity with
  no record. The gate asks \<open>isProUser\<close>, which goes through \<open>getUser\<close>, and \<open>getUser\<close>
  creates the default record of an unknown identity: on the empty store the command
  leaves one record.
\<close>

theorem premium_creates_record_counterexample:
  "users emptyWorld = [] \<and>
   users (snd (handleMessage sampleEnv 5000 delivering ''7@s.whatsapp.net'' ''/premium'' emptyWorld)) =
     [(''7@s.whatsapp.net'',
       \<lparr>jid = ''7@s.whatsapp.net'', isPro = False, email = None, upgradedAt = None\<rparr>)]"
  unfolding route_premium
  by (simp add: handlePremium_users emptyWorld_def getUser_absent)

text \<open>
  Claim C7, amended. Routing \<open>/premium\<close> sends no mail and leaves every existing
  record as it was, whether the gate blocks or passes and whether or not the reply
  is delivered; the only change it can make to the store is to append the default
  Free record of a sender that had none.
\<close>

theorem premium_frame:
  "let R = handleMessage ev now sk who ''/premium'' w in
     users (snd R) =
       (if mapHas (users w) who then users w
        else users w @ [(who, \<lparr>jid = who, isPro = False, email = None, upgradedAt = None\<rparr>)]) \<and>
     mails (snd R) = mails w"
  unfolding route_premium
  by (cases "map_of (users w) who")
     (simp_all add: handlePremium_users mapHas_def mapGet_def getUser_present getUser_absent)

theorem premium_frame_witness:
  "users (snd (handleMessage sampleEnv 5000 delivering ''15550000000@s.whatsapp.net'' ''/premium''
      seededWorld)) = users seededWorld \<and>
   users (snd (handleMessage sampleEnv 5000 rejecting ''7@s.whatsapp.net'' ''/premium''
      seededWorld)) =
     users seededWorld @
       [(''7@s.whatsapp.net'',
         \<lparr>jid = ''7@s.whatsapp.net'', isPro = False, email = None, upgradedAt = None\<rparr>)]"
  using premium_frame [of sampleEnv 5000 delivering "''15550000000@s.whatsapp.net''" seededWorld]
    premium_frame [of sampleEnv 5000 rejecting "''7@s.whatsapp.net''" seededWorld]
  by (simp add: Let_def seededWorld_def mapHas_def mapGet_def)

section \<open>Unknown commands\<close>

text \<open>
  Claim C9. When the first piece of the trimmed input, in lower case, is none of
  \<open>/start\<close>, \<open>/help\<close>, \<open>/status\<close>, \<open>/premium\<close>, \<open>/activate\<close> and \<open>/admin\<close>, the router
  returns normally, sends nothing, sends no mail and leaves the store as it was.
  The empty input and an input of white space only have the empty string as their
  first piece, and an input without the slash has a first piece that is no command.
\<close>

theorem unknown_command_ignored:
  assumes "toLowerCase (hd (splitWhiteSpace (trim text))) \<notin>
     {''/start'', ''/help'', ''/status'', ''/premium'', ''/activate'', ''/admin''}"
  shows "let R = handleMessage ev now sk who text w in
     fst R = Inr () \<and> outbox (snd R) = outbox w \<and> users (snd R) = users w \<and>
     mails (snd R) = mails w"
proof -
  obtain command args where s: "splitWhiteSpace (trim text) = command # args"
    using splitWhiteSpace_not_Nil [of "trim text"] by (cases "splitWhiteSpace (trim text)") auto
  show ?thesis
    using assms by (simp add: handleMessage_def s)
qed

theorem unknown_command_ignored_witness:
  "fst (handleMessage sampleEnv 5000 rejecting ''7@s.whatsapp.net'' ''/xyz'' emptyWorld) = Inr () \<and>
   outbox (snd (handleMessage sampleEnv 5000 rejecting ''7@s.whatsapp.net'' ''/xyz'' emptyWorld)) = [] \<and>
   users (snd (handleMessage sampleEnv 5000 rejecting ''7@s.whatsapp.net'' ''/xyz'' emptyWorld)) = [] \<and>
   outbox (snd (handleMessage sampleEnv 5000 rejecting ''7@s.whatsapp.net'' '''' seededWorld)) = [] \<and>
   users (snd (handleMessage sampleEnv 5000 rejecting ''7@s.whatsapp.net'' '''' seededWorld)) =
     users seededWorld \<and>
   outbox (snd (handleMessage sampleEnv 5000 rejecting ''7@s.whatsapp.net'' ''   '' seededWorld)) = [] \<and>
   outbox (snd (handleMessage sampleEnv 5000 rejecting ''7@s.whatsapp.net'' ''status please''
      seededWorld)) = []"
proof -
  have t1: "toLowerCase (hd (splitWhiteSpace (trim ''/xyz''))) = ''/xyz''"
    by code_simp
  have t2: "toLowerCase (hd (splitWhiteSpace (trim ''''))) = ''''"
    by code_simp
  have t3: "toLowerCase (hd (splitWhiteSpace (trim ''   ''))) = ''''"
    by code_simp
  have t4: "toLowerCase (hd (splitWhiteSpace (trim ''status please''))) = ''status''"
    by code_simp
  show ?thesis
    using
      unknown_command_ignored [of "''/xyz''" sampleEnv 5000 rejecting "''7@s.whatsapp.net''" emptyWorld]
      unknown_command_ignored [of "''''" sampleEnv 5000 rejecting "''7@s.whatsapp.net''" seededWorld]
      unknown_command_ignored [of "''   ''" sampleEnv 5000 rejecting "''7@s.whatsapp.net''" seededWorld]
      unknown_command_ignored [of "''status please''" sampleEnv 5000 rejecting "''7@s.whatsapp.net''" seededWorld]
    unfolding t1 t2 t3 t4
    by (simp add: Let_def emptyWorld_def seededWorld_def)
qed

lemma handleStatus_result:
  "handleStatus sk who w =
     reply sk who (TierStatus (isPro (fst (getUser who (users w)))) (upgradedAt (fst (getUser who (users w)))))
       (w\<lparr>users := snd (getUser who (users w))\<rparr>)"
  by (simp add: handleStatus_def Let_def split: prod.splits)

section \<open>The status command\<close>

text \<open>
  Claim C10. For an identity with no record, routing \<open>/status\<close> sends exactly one
  reply, which reports the Free tier and no upgrade date, and appends the default
  record (not Pro, no address, no \<open>upgradedAt\<close>) to the store. The store then has one
  record more, and the panel a later \<open>/admin\<close> of the Pro administrator shows counts
  it in its total.
\<close>

theorem status_unseen_identity:
  assumes "\<not> mapHas (users w) who"
  shows "let R = handleMessage ev now sk who ''/status'' w in
     outbox (snd R) = outbox w @ [(who, TierStatus False None)] \<and>
     users (snd R) =
       users w @ [(who, \<lparr>jid = who, isPro = False, email = None, upgradedAt = None\<rparr>)] \<and>
     fst R = (if sk who (TierStatus False None) then Inr () else Inl TransportError) \<and>
     length (listAllUsers (users (snd R))) = length (listAllUsers (users w)) + 1 \<and>
     (\<forall>ev' now' sk' adm. adm = ADMIN_JID ev' \<and> fst (isProUser adm (users w)) \<longrightarrow>
        (\<exists>proCount freeCount.
           outbox (snd (handleMessage ev' now' sk' adm ''/admin'' (snd R))) =
             outbox (snd R) @
               [(adm, AdminPanel (int (length (listAllUsers (users w))) + 1) proCount freeCount)]))"
proof -
  from assms have none: "map_of (users w) who = None"
    by (simp add: mapHas_def mapGet_def)
  let ?w1 = "w\<lparr>console := console w @ [LogCommand who ''/status'' []]\<rparr>"
  let ?d = "\<lparr>jid = who, isPro = False, email = None, upgradedAt = None\<rparr>"
  have r: "handleMessage ev now sk who ''/status'' w =
      (if sk who (TierStatus False None) then Inr () else Inl TransportError,
       ?w1\<lparr>users := users w @ [(who, ?d)], outbox := outbox w @ [(who, TierStatus False None)]\<rparr>)"
    unfolding route_status using none
    by (simp add: handleStatus_result getUser_absent reply_result)
  have later: "\<exists>proCount freeCount.
      outbox (snd (handleMessage ev' now' sk' adm ''/admin'' (snd (handleMessage ev now sk who ''/status'' w)))) =
        outbox (snd (handleMessage ev now sk who ''/status'' w)) @
          [(adm, AdminPanel (int (length (listAllUsers (users w))) + 1) proCount freeCount)]"
    if adm: "adm = ADMIN_JID ev'" and pro: "fst (isProUser adm (users w))" for ev' now' sk' adm
  proof -
    obtain u where u: "map_of (users w) adm = Some u" "isPro u"
      using pro isProUser_true by blast
    have "map_of (users w @ [(who, ?d)]) adm = Some u"
      using u by (simp add: map_add_def)
    then show ?thesis
      unfolding r route_admin using u(2) adm
      by (simp add: handleAdmin_pro reply_result listAllUsers_def)
  qed
  show ?thesis
    unfolding Let_def using later by (simp add: r listAllUsers_def)
qed


theorem status_unseen_identity_witness:
  "outbox (snd (handleMessage sampleEnv 5000 delivering ''7@s.whatsapp.net'' ''/status'' seededWorld)) =
     [(''7@s.whatsapp.net'', TierStatus False None)] \<and>
   users (snd (handleMessage sampleEnv 5000 delivering ''7@s.whatsapp.net'' ''/status'' seededWorld)) =
     [(''15550000000@s.whatsapp.net'',
       \<lparr>jid = ''15550000000@s.whatsapp.net'', isPro = True, email = None, upgradedAt = Some 1000\<rparr>),
      (''7@s.whatsapp.net'',
       \<lparr>jid = ''7@s.whatsapp.net'', isPro = False, email = None, upgradedAt = None\<rparr>)] \<and>
   (\<exists>proCount freeCount.
      outbox (snd (handleMessage sampleEnv 6000 delivering ''15550000000@s.whatsapp.net'' ''/admin''
        (snd (handleMessage sampleEnv 5000 delivering ''7@s.whatsapp.net'' ''/status'' seededWorld)))) =
        [(''7@s.whatsapp.net'', TierStatus False None),
         (''15550000000@s.whatsapp.net'', AdminPanel 2 proCount freeCount)])"
proof -
  have unseen: "\<not> mapHas (users seededWorld) ''7@s.whatsapp.net''"
    by (simp add: seededWorld_def mapHas_def mapGet_def)
  have pro: "fst (isProUser ''15550000000@s.whatsapp.net'' (users seededWorld))"
    by (simp add: seededWorld_def isProUser_def getUser_def mapHas_def mapGet_def)
  have pro': "fst (isProUser (ADMIN_JID sampleEnv) (users seededWorld))"
    using pro by (simp add: ADMIN_JID_sample)
  note T = status_unseen_identity [OF unseen, of sampleEnv 5000 delivering, unfolded Let_def]
  from T have sent: "outbox (snd (handleMessage sampleEnv 5000 delivering ''7@s.whatsapp.net''
      ''/status'' seededWorld)) = outbox seededWorld @ [(''7@s.whatsapp.net'', TierStatus False None)]"
    by blast
  from T have stored: "users (snd (handleMessage sampleEnv 5000 delivering ''7@s.whatsapp.net''
      ''/status'' seededWorld)) = users seededWorld @
        [(''7@s.whatsapp.net'',
          \<lparr>jid = ''7@s.whatsapp.net'', isPro = False, email = None, upgradedAt = None\<rparr>)]"
    by blast
  from T have "\<exists>proCount freeCount.
      outbox (snd (handleMessage sampleEnv 6000 delivering (ADMIN_JID sampleEnv) ''/admin''
        (snd (handleMessage sampleEnv 5000 delivering ''7@s.whatsapp.net'' ''/status'' seededWorld)))) =
        outbox (snd (handleMessage sampleEnv 5000 delivering ''7@s.whatsapp.net'' ''/status'' seededWorld)) @
        [(ADMIN_JID sampleEnv, AdminPanel (int (length (listAllUsers (users seededWorld))) + 1)
            proCount freeCount)]"
    using pro' by blast
  then have counted: "\<exists>proCount freeCount.
      outbox (snd (handleMessage sampleEnv 6000 delivering ''15550000000@s.whatsapp.net'' ''/admin''
        (snd (handleMessage sampleEnv 5000 delivering ''7@s.whatsapp.net'' ''/status'' seededWorld)))) =
        [(''7@s.whatsapp.net'', TierStatus False None),
         (''15550000000@s.whatsapp.net'', AdminPanel 2 proCount freeCount)]"
    unfolding sent by (simp add: ADMIN_JID_sample seededWorld_def listAllUsers_def)
  show ?thesis
    using sent stored counted by (simp add: seededWorld_def)
qed

section \<open>The history of upgradedAt\<close>

text \<open>
  How each exported function acts on \<open>upgradedAt\<close> and on the tier of an identity,
  and from there how a whole history does.
\<close>

lemma lastOf_append:
  "lastOf (xs @ ys) = (case lastOf ys of None \<Rightarrow> lastOf xs | Some t \<Rightarrow> Some t)"
  by (cases "rev ys") (simp_all add: lastOf_def)

lemma upgradedAtOf_mapSet:
  "upgradedAtOf who (mapSet k v m) = (if who = k then upgradedAt v else upgradedAtOf who m)"
  by (simp add: upgradedAtOf_def mapGet_mapSet)

lemma upgradedAtOf_getUser: "upgradedAtOf who (snd (getUser k m)) = upgradedAtOf who m"
  by (cases "map_of m k"; cases "who = k")
     (simp_all add: getUser_present getUser_absent upgradedAtOf_def mapGet_def map_add_def
        split: option.splits)

lemma upgradedAt_fst_getUser: "upgradedAt (fst (getUser k m)) = upgradedAtOf k m"
  by (cases "map_of m k")
     (simp_all add: getUser_present getUser_absent upgradedAtOf_def mapGet_def)

lemma upgradedAtOf_upgradeUserToPro:
  "upgradedAtOf who (snd (upgradeUserToPro k addr now m)) =
     (if who = k then Some now else upgradedAtOf who m)"
  by (simp add: upgradeUserToPro_result Let_def upgradedAtOf_mapSet upgradedAtOf_getUser)

lemma upgradedAtOf_revokeProAccess:
  "upgradedAtOf who (snd (revokeProAccess k m)) = upgradedAtOf who m"
  by (simp add: revokeProAccess_def Let_def upgradedAtOf_mapSet upgradedAtOf_getUser
      upgradedAt_fst_getUser split: prod.splits)
     (metis fst_conv snd_conv upgradedAtOf_getUser upgradedAt_fst_getUser)

lemma upgradedAtOf_isProUser: "upgradedAtOf who (snd (isProUser k m)) = upgradedAtOf who m"
  using upgradedAtOf_getUser [of who k m] by (cases "getUser k m") (simp add: isProUser_def)

lemma upgradedAtOf_callStore:
  "upgradedAtOf who (callStore c m) =
     (case lastOf (upgradeTimes who [c]) of None \<Rightarrow> upgradedAtOf who m | Some t \<Rightarrow> Some t)"
  by (cases c)
     (simp_all add: upgradedAtOf_getUser upgradedAtOf_isProUser upgradedAtOf_upgradeUserToPro
        upgradedAtOf_revokeProAccess lastOf_def)

lemma upgradeTimes_Cons: "upgradeTimes who (c # cs) = upgradeTimes who [c] @ upgradeTimes who cs"
  by (cases c) simp_all

lemma upgradedAtOf_callsStore:
  "upgradedAtOf who (callsStore cs m) =
     (case lastOf (upgradeTimes who cs) of None \<Rightarrow> upgradedAtOf who m | Some t \<Rightarrow> Some t)"
proof (induction cs arbitrary: m)
  case Nil
  show ?case by (simp add: lastOf_def)
next
  case (Cons c cs)
  show ?case
    by (simp add: Cons.IH upgradedAtOf_callStore upgradeTimes_Cons [of who c cs] lastOf_append
        del: upgradeTimes.simps split: option.splits)
qed

lemma upgradedAtOf_seedUsers:
  "upgradedAtOf who (seedUsers seeds m) =
     (case lastOf (seedTimes who seeds) of None \<Rightarrow> upgradedAtOf who m | Some t \<Rightarrow> Some t)"
proof (induction seeds arbitrary: m)
  case Nil
  show ?case by (simp add: lastOf_def)
next
  case (Cons s seeds)
  obtain k now where s: "s = (k, now)" by (cases s)
  show ?case
    by (simp add: s Cons.IH upgradedAtOf_mapSet lastOf_append split: option.splits)
       (simp add: lastOf_def)
qed

lemma tierPro_mapSet:
  "tierPro who (mapSet k v m) = (if who = k then isPro v else tierPro who m)"
  by (simp add: tierPro_def mapGet_mapSet)

lemma tierPro_getUser: "tierPro who (snd (getUser k m)) = tierPro who m"
  by (cases "map_of m k"; cases "who = k")
     (simp_all add: getUser_present getUser_absent tierPro_def mapGet_def map_add_def
        split: option.splits)

lemma tierPro_isProUser: "tierPro who (snd (isProUser k m)) = tierPro who m"
  using tierPro_getUser [of who k m] by (cases "getUser k m") (simp add: isProUser_def)

lemma tierPro_revokeProAccess:
  "tierPro who (snd (revokeProAccess k m)) = (if who = k then False else tierPro who m)"
  using tierPro_getUser [of who k m]
  by (cases "getUser k m") (simp add: revokeProAccess_def Let_def tierPro_mapSet)

lemma transition_stamps:
  "\<not> tierPro who m \<Longrightarrow> tierPro who (callStore c m) \<Longrightarrow>
   upgradedAtOf who (callStore c m) = lastOf (clockReadings c) \<and> clockReadings c \<noteq> []"
proof (cases c)
  case (UpgradeUserToPro k addr now)
  assume free: "\<not> tierPro who m" and pro: "tierPro who (callStore c m)"
  have "who = k"
  proof (rule ccontr)
    assume "who \<noteq> k"
    then have "tierPro who (callStore c m) = tierPro who m"
      by (simp add: UpgradeUserToPro upgradeUserToPro_result Let_def tierPro_mapSet tierPro_getUser)
    with free pro show False by simp
  qed
  then show ?thesis
    by (simp add: UpgradeUserToPro upgradedAtOf_upgradeUserToPro lastOf_def)
qed (simp_all add: tierPro_getUser tierPro_isProUser tierPro_revokeProAccess split: if_splits)

lemma no_reading_no_change:
  "clockReadings c = [] \<Longrightarrow> upgradedAtOf who (callStore c m) = upgradedAtOf who m"
  by (cases c)
     (simp_all add: upgradedAtOf_getUser upgradedAtOf_isProUser upgradedAtOf_revokeProAccess)

text \<open>
  Claim C8, amended. Over every history of the store (any seeding, then any calls
  of the exported functions), \<open>upgradedAt\<close> of an identity is the clock reading of
  the last time it was assigned: by a seeding iteration for the identity or by a
  call of \<open>upgradeUserToPro\<close> for it, whether or not that call changed the tier; it is
  \<open>null\<close> exactly when there was no such time. A call that reads no clock
  (\<open>getUser\<close>, \<open>isProUser\<close>, \<open>revokeProAccess\<close>, \<open>listAllUsers\<close>) leaves \<open>upgradedAt\<close> of
  every identity as it was, and a call that takes an identity from Free to Pro sets
  its \<open>upgradedAt\<close> to the clock reading of that call.
\<close>

theorem upgradedAt_history:
  "upgradedAtOf who (runStore seeds cs) = lastOf (seedTimes who seeds @ upgradeTimes who cs) \<and>
   (clockReadings c = [] \<longrightarrow> upgradedAtOf who (callStore c m) = upgradedAtOf who m) \<and>
   (\<not> tierPro who m \<and> tierPro who (callStore c m) \<longrightarrow>
      upgradedAtOf who (callStore c m) = lastOf (clockReadings c) \<and> clockReadings c \<noteq> [])"
proof -
  have "upgradedAtOf who [] = None"
    by (simp add: upgradedAtOf_def mapGet_def)
  then have "upgradedAtOf who (runStore seeds cs) = lastOf (seedTimes who seeds @ upgradeTimes who cs)"
    by (simp add: runStore_def upgradedAtOf_callsStore upgradedAtOf_seedUsers lastOf_append
        split: option.splits)
  then show ?thesis
    using no_reading_no_change [of c who m] transition_stamps [of who m c] by blast
qed

theorem upgradedAt_history_witness:
  "upgradedAtOf ''7@s.whatsapp.net''
     (runStore [(''15550000000@s.whatsapp.net'', 1000)]
        [GetUser ''7@s.whatsapp.net'', UpgradeUserToPro ''7@s.whatsapp.net'' (Some ''a@b.com'') 2000,
         RevokeProAccess ''7@s.whatsapp.net'', UpgradeUserToPro ''7@s.whatsapp.net'' None 3000,
         UpgradeUserToPro ''7@s.whatsapp.net'' None 4000, IsProUser ''8@s.whatsapp.net'']) = Some 4000 \<and>
   upgradedAtOf ''15550000000@s.whatsapp.net''
     (callStore (RevokeProAccess ''15550000000@s.whatsapp.net'')
        (seedUsers [(''15550000000@s.whatsapp.net'', 1000)] [])) = Some 1000 \<and>
   upgradedAtOf ''7@s.whatsapp.net''
     (callStore (UpgradeUserToPro ''7@s.whatsapp.net'' None 3000) []) = Some 3000"
proof -
  have a: "clockReadings (RevokeProAccess ''15550000000@s.whatsapp.net'') = []"
    by simp
  have b: "\<not> tierPro ''7@s.whatsapp.net'' []"
    by (simp add: tierPro_def mapGet_def)
  have c: "tierPro ''7@s.whatsapp.net'' (callStore (UpgradeUserToPro ''7@s.whatsapp.net'' None 3000) [])"
    by code_simp
  have d: "upgradedAtOf ''15550000000@s.whatsapp.net''
      (seedUsers [(''15550000000@s.whatsapp.net'', 1000)] []) = Some 1000"
    by code_simp
  show ?thesis
    using a b c d
      upgradedAt_history [of "''7@s.whatsapp.net''" "[(''15550000000@s.whatsapp.net'', 1000)]"
        "[GetUser ''7@s.whatsapp.net'', UpgradeUserToPro ''7@s.whatsapp.net'' (Some ''a@b.com'') 2000,
          RevokeProAccess ''7@s.whatsapp.net'', UpgradeUserToPro ''7@s.whatsapp.net'' None 3000,
          UpgradeUserToPro ''7@s.whatsapp.net'' None 4000, IsProUser ''8@s.whatsapp.net'']"
        "UpgradeUserToPro ''7@s.whatsapp.net'' None 3000" "[]"]
      upgradedAt_history [of "''15550000000@s.whatsapp.net''" "[]" "[]"
        "RevokeProAccess ''15550000000@s.whatsapp.net''"
        "seedUsers [(''15550000000@s.whatsapp.net'', 1000)] []"]
    by (simp add: lastOf_def)
qed

text \<open>
  Claim C8 says that \<open>upgradedAt\<close> is set exactly when the tier went from Free to Pro,
  to the time of that transition, and that seeding and a repeated upgrade leave it
  alone. The seeding loop stores \<open>upgradedAt: new Date()\<close> in a record that was never
  Free: after seeding at time 1000 and no call, the record has \<open>upgradedAt\<close> 1000 and
  no transition has happened. And \<open>upgradeUserToPro\<close> assigns it on every call: after
  upgrades at 1000 and 2000 the only transition was at 1000 and \<open>upgradedAt\<close> is 2000.
\<close>

theorem upgradedAt_transition_counterexample:
  "upgradedAtOf ''7@s.whatsapp.net'' (runStore [(''7@s.whatsapp.net'', 1000)] []) = Some 1000 \<and>
   transitionTimes ''7@s.whatsapp.net'' [] (seedUsers [(''7@s.whatsapp.net'', 1000)] []) = [] \<and>
   upgradedAtOf ''7@s.whatsapp.net''
     (runStore [] [UpgradeUserToPro ''7@s.whatsapp.net'' None 1000,
                   UpgradeUserToPro ''7@s.whatsapp.net'' None 2000]) = Some 2000 \<and>
   transitionTimes ''7@s.whatsapp.net''
     [UpgradeUserToPro ''7@s.whatsapp.net'' None 1000,
      UpgradeUserToPro ''7@s.whatsapp.net'' None 2000] (seedUsers [] []) = [1000]"
  by code_simp

end
